theory Spec2Isabelle
  imports Complex_Main "HOL-Library.Multiset"
begin

section \<open>Overpass selection of modis\_atm (overpass\_filter.py)\<close>

text \<open>
  The module groups catalogue entries by the midpoint of their sensing interval, scores
  each group by its distance in time to a target date and by the share of the area of
  interest its footprints cover, and returns the entries of the best group.

  Conventions of the embedding:
  \<^item> Python floats are read as real numbers; rounding of floating-point arithmetic is
    not part of the model.
  \<^item> A \<open>datetime.timedelta\<close> is its number of microseconds, an \<open>int\<close>.
  \<^item> A \<open>datetime.datetime\<close> is its wall-clock reading in microseconds together with
    its \<open>tzinfo\<close>: \<open>None\<close> for a naive value, \<open>Some off\<close> for an aware value
    in a zone of fixed UTC offset \<open>off\<close>, in microseconds. The wall clock counts
    from 0001-01-01 00:00:00; a Python datetime has its wall clock between 0 and
    \<open>max_wall_us\<close> (9999-12-31 23:59:59.999999), and an addition that leaves this
    range raises OverflowError.
  \<^item> A dictionary is the list of its items in the order of insertion, which is the
    order in which Python iterates over it.
  \<^item> An exception is a value \<open>Inl err\<close> of a sum type; a normal result is \<open>Inr\<close>.
  \<^item> The geometry library (shapely) is outside the module: the area of a geometry and
    the intersection of two geometries are parameters \<open>area\<close> and \<open>intersection\<close>.
  \<^item> Logging has no effect on results and is left out.
\<close>

subsection \<open>Python values\<close>

datatype py_error = TypeError | ZeroDivisionError | ValueError | OverflowError

type_synonym timedelta = int

record datetime =
  wall_us :: int
  tzinfo :: "int option"

text \<open>\<open>a - b\<close> on datetimes: both naive, or both aware (then compared in UTC);
  a naive and an aware operand raise TypeError.\<close>

definition dt_sub :: "datetime \<Rightarrow> datetime \<Rightarrow> py_error + timedelta" where
  "dt_sub a b =
     (case tzinfo a of
        None \<Rightarrow> (case tzinfo b of
                   None \<Rightarrow> Inr (wall_us a - wall_us b)
                 | Some ob \<Rightarrow> Inl TypeError)
      | Some oa \<Rightarrow> (case tzinfo b of
                   None \<Rightarrow> Inl TypeError
                 | Some ob \<Rightarrow> Inr ((wall_us a - oa) - (wall_us b - ob))))"

text \<open>The last microsecond of the year 9999, counted from 0001-01-01 00:00:00
  (3652059 days).\<close>

definition max_wall_us :: int where
  "max_wall_us = 315537897599999999"

text \<open>The datetimes that Python can represent.\<close>

definition valid_datetime :: "datetime \<Rightarrow> bool" where
  "valid_datetime d = (0 \<le> wall_us d \<and> wall_us d \<le> max_wall_us)"

text \<open>\<open>d + t\<close> for a datetime and a timedelta: the wall clock moves, tzinfo stays;
  a result outside the years 1 to 9999 raises OverflowError.\<close>

definition dt_add :: "datetime \<Rightarrow> timedelta \<Rightarrow> py_error + datetime" where
  "dt_add d t =
     (if 0 \<le> wall_us d + t \<and> wall_us d + t \<le> max_wall_us
      then Inr (d\<lparr>wall_us := wall_us d + t\<rparr>)
      else Inl OverflowError)"

text \<open>\<open>a == b\<close> on datetimes, which is also the equality of dictionary keys:
  a naive and an aware value are never equal, aware values are equal when they are
  the same instant.\<close>

definition dt_eq :: "datetime \<Rightarrow> datetime \<Rightarrow> bool" where
  "dt_eq a b =
     (case tzinfo a of
        None \<Rightarrow> (case tzinfo b of
                   None \<Rightarrow> wall_us a = wall_us b
                 | Some ob \<Rightarrow> False)
      | Some oa \<Rightarrow> (case tzinfo b of
                   None \<Rightarrow> False
                 | Some ob \<Rightarrow> wall_us a - oa = wall_us b - ob))"

text \<open>\<open>d.replace(tzinfo=None)\<close>: the wall clock is kept, the zone is dropped.\<close>

definition replace_tzinfo_None :: "datetime \<Rightarrow> datetime" where
  "replace_tzinfo_None d = d\<lparr>tzinfo := None\<rparr>"

text \<open>\<open>timedelta / int\<close> rounds the quotient of the microseconds to the nearest
  integer, halves to the even one (\<open>_divide_and_round\<close> of the datetime module).\<close>

definition divide_and_round :: "int \<Rightarrow> int \<Rightarrow> int" where
  "divide_and_round a b =
     (let q = a div b;
          r = 2 * (a mod b);
          greater_than_half = (if 0 < b then b < r else r < b)
      in if greater_than_half \<or> (r = b \<and> q mod 2 = 1) then q + 1 else q)"

definition td_truediv :: "timedelta \<Rightarrow> int \<Rightarrow> timedelta" where
  "td_truediv t n = divide_and_round t n"

definition total_seconds :: "timedelta \<Rightarrow> real" where
  "total_seconds t = real_of_int t / 1000000"

text \<open>A parsed entry: the three keys the module reads.\<close>

record 'g entry =
  start_date :: datetime
  end_date :: datetime
  footprint :: 'g

subsection \<open>Grouping by date\<close>

definition average_datetime :: "datetime \<Rightarrow> datetime \<Rightarrow> py_error + datetime" where
  "average_datetime date1 date2 =
     (case dt_sub date2 date1 of
        Inl err \<Rightarrow> Inl err
      | Inr dt \<Rightarrow> dt_add date1 (td_truediv dt 2))"

text \<open>\<open>date_groups[date].append(e)\<close> on a \<open>defaultdict(list)\<close>. The dictionary
  keeps its keys in the order of their first insertion, and keeps the key object
  that was inserted first; it is an association list searched with \<open>dt_eq\<close>.\<close>

fun append_to_group ::
  "datetime \<Rightarrow> 'e \<Rightarrow> (datetime \<times> 'e list) list \<Rightarrow> (datetime \<times> 'e list) list" where
  "append_to_group date e [] = [(date, [e])]"
| "append_to_group date e ((k, es) # gs) =
     (if dt_eq k date then (k, es @ [e]) # gs
      else (k, es) # append_to_group date e gs)"

fun group_loop ::
  "'g entry list \<Rightarrow> (datetime \<times> 'g entry list) list
     \<Rightarrow> py_error + (datetime \<times> 'g entry list) list" where
  "group_loop [] date_groups = Inr date_groups"
| "group_loop (e # rest) date_groups =
     (case average_datetime (start_date e) (end_date e) of
        Inl err \<Rightarrow> Inl err
      | Inr date \<Rightarrow> group_loop rest (append_to_group date e date_groups))"

definition group_entries_by_date ::
  "'g entry list \<Rightarrow> py_error + (datetime \<times> 'g entry list) list" where
  "group_entries_by_date parsed_entries = group_loop parsed_entries []"

subsection \<open>Temporal value\<close>

text \<open>Lines 44 to 50 of \<open>_value_date\<close>: the value of a time difference. The division
  by \<open>max_diff_hours\<close> raises ZeroDivisionError when the divisor is zero.\<close>

definition timepct :: "timedelta \<Rightarrow> real \<Rightarrow> py_error + real" where
  "timepct ddiff max_diff_hours =
     (let diff_hours = \<bar>total_seconds ddiff / 3600\<bar>
      in if diff_hours > max_diff_hours then Inr 0
         else if max_diff_hours = 0 then Inl ZeroDivisionError
         else Inr ((max_diff_hours - diff_hours) / max_diff_hours))"

text \<open>\<open>_value_date\<close> over any date type with a subtraction \<open>sub\<close> and a method
  \<open>strip\<close> (\<open>replace(tzinfo=None)\<close>): the try block, the handler of TypeError with its
  second subtraction, then the value of the difference.\<close>

definition value_date_with ::
  "('d \<Rightarrow> 'd \<Rightarrow> py_error + timedelta) \<Rightarrow> ('d \<Rightarrow> 'd) \<Rightarrow> 'd \<Rightarrow> 'd \<Rightarrow> real
     \<Rightarrow> py_error + real" where
  "value_date_with sub strip overpass_date target_date max_diff_hours =
     (case sub overpass_date target_date of
        Inr ddiff \<Rightarrow> timepct ddiff max_diff_hours
      | Inl err \<Rightarrow>
          if err = TypeError then
            (case sub (strip overpass_date) (strip target_date) of
               Inr ddiff \<Rightarrow> timepct ddiff max_diff_hours
             | Inl err' \<Rightarrow> Inl err')
          else Inl err)"

text \<open>\<open>_value_date\<close> on datetimes.\<close>

definition value_date :: "datetime \<Rightarrow> datetime \<Rightarrow> real \<Rightarrow> py_error + real" where
  "value_date = value_date_with dt_sub replace_tzinfo_None"

subsection \<open>Spatial value\<close>

definition value_overlap ::
  "('g \<Rightarrow> real) \<Rightarrow> ('g \<Rightarrow> 'g \<Rightarrow> 'g) \<Rightarrow> 'g \<Rightarrow> 'g \<Rightarrow> py_error + real" where
  "value_overlap area intersection footprint_geom aoi_geom =
     (if area aoi_geom = 0 then Inl ZeroDivisionError
      else Inr (area (intersection aoi_geom footprint_geom) / area aoi_geom))"

subsection \<open>The selector\<close>

text \<open>The inner loop of \<open>get_best_overpass\<close> that fills \<open>overlap_values\<close>.\<close>

fun overlap_values ::
  "('g \<Rightarrow> real) \<Rightarrow> ('g \<Rightarrow> 'g \<Rightarrow> 'g) \<Rightarrow> 'g entry list \<Rightarrow> 'g \<Rightarrow> py_error + real list" where
  "overlap_values area intersection [] aoi_geom = Inr []"
| "overlap_values area intersection (e # es) aoi_geom =
     (case value_overlap area intersection (footprint e) aoi_geom of
        Inl err \<Rightarrow> Inl err
      | Inr v \<Rightarrow>
          (case overlap_values area intersection es aoi_geom of
             Inl err \<Rightarrow> Inl err
           | Inr vs \<Rightarrow> Inr (v # vs)))"

text \<open>The outer loop over the groups, in the order of the dictionary. The state is
  \<open>(best_date_value, best_entries)\<close>; \<open>best_entries\<close> starts as Python's None.\<close>

fun scan_groups ::
  "('g \<Rightarrow> real) \<Rightarrow> ('g \<Rightarrow> 'g \<Rightarrow> 'g) \<Rightarrow> 'g \<Rightarrow> datetime \<Rightarrow> real \<Rightarrow> real
     \<Rightarrow> (datetime \<times> 'g entry list) list \<Rightarrow> real \<times> 'g entry list option
     \<Rightarrow> py_error + (real \<times> 'g entry list option)" where
  "scan_groups area intersection aoi_geom target_date max_diff_hours min_overlap_pct
     [] best = Inr best"
| "scan_groups area intersection aoi_geom target_date max_diff_hours min_overlap_pct
     ((overpass_date, entries) # rest) (best_date_value, best_entries) =
     (case value_date overpass_date target_date max_diff_hours of
        Inl err \<Rightarrow> Inl err
      | Inr date_value \<Rightarrow>
          if date_value = 0 then
            scan_groups area intersection aoi_geom target_date max_diff_hours
              min_overlap_pct rest (best_date_value, best_entries)
          else
            (case overlap_values area intersection entries aoi_geom of
               Inl err \<Rightarrow> Inl err
             | Inr vs \<Rightarrow>
                 if sum_list vs < min_overlap_pct then
                   scan_groups area intersection aoi_geom target_date max_diff_hours
                     min_overlap_pct rest (best_date_value, best_entries)
                 else if date_value > best_date_value then
                   scan_groups area intersection aoi_geom target_date max_diff_hours
                     min_overlap_pct rest (date_value, Some entries)
                 else
                   scan_groups area intersection aoi_geom target_date max_diff_hours
                     min_overlap_pct rest (best_date_value, best_entries)))"

text \<open>\<open>get_best_overpass\<close>. The result \<open>Inr None\<close> would be Python's None.\<close>

definition get_best_overpass ::
  "('g \<Rightarrow> real) \<Rightarrow> ('g \<Rightarrow> 'g \<Rightarrow> 'g) \<Rightarrow> 'g entry list \<Rightarrow> 'g \<Rightarrow> datetime \<Rightarrow> real \<Rightarrow> real
     \<Rightarrow> py_error + 'g entry list option" where
  "get_best_overpass area intersection parsed_entries aoi_geom target_date
     max_diff_hours min_overlap_pct =
     (case group_entries_by_date parsed_entries of
        Inl err \<Rightarrow> Inl err
      | Inr date_groups \<Rightarrow>
          (case scan_groups area intersection aoi_geom target_date max_diff_hours
                  min_overlap_pct date_groups (0, None) of
             Inl err \<Rightarrow> Inl err
           | Inr (best_date_value, best_entries) \<Rightarrow>
               if best_date_value = 0 then Inl ValueError else Inr best_entries))"

subsection \<open>Predicates of the specification\<close>

text \<open>A group passes both filters with temporal value \<open>v\<close>: its temporal value is \<open>v\<close>
  and is not zero, and the sum of the overlap values of its entries is at least
  \<open>min_overlap_pct\<close>.\<close>

definition qualifies ::
  "('g \<Rightarrow> real) \<Rightarrow> ('g \<Rightarrow> 'g \<Rightarrow> 'g) \<Rightarrow> 'g \<Rightarrow> datetime \<Rightarrow> real \<Rightarrow> real
     \<Rightarrow> datetime \<times> 'g entry list \<Rightarrow> real \<Rightarrow> bool" where
  "qualifies area intersection aoi_geom target_date max_diff_hours min_overlap_pct g v =
     (value_date (fst g) target_date max_diff_hours = Inr v \<and> v \<noteq> 0 \<and>
      (case overlap_values area intersection (snd g) aoi_geom of
         Inl err \<Rightarrow> False
       | Inr vs \<Rightarrow> min_overlap_pct \<le> sum_list vs))"

text \<open>A group is skipped by the loop: its temporal value is computed and is zero, or
  its temporal value is computed and is not zero, and the sum of the overlap values of
  its entries is computed and is below \<open>min_overlap_pct\<close>.\<close>

definition skipped ::
  "('g \<Rightarrow> real) \<Rightarrow> ('g \<Rightarrow> 'g \<Rightarrow> 'g) \<Rightarrow> 'g \<Rightarrow> datetime \<Rightarrow> real \<Rightarrow> real
     \<Rightarrow> datetime \<times> 'g entry list \<Rightarrow> bool" where
  "skipped area intersection aoi_geom target_date max_diff_hours min_overlap_pct g =
     (case value_date (fst g) target_date max_diff_hours of
        Inl err \<Rightarrow> False
      | Inr v \<Rightarrow>
          v = 0 \<or>
          (case overlap_values area intersection (snd g) aoi_geom of
             Inl err \<Rightarrow> False
           | Inr vs \<Rightarrow> sum_list vs < min_overlap_pct))"

text \<open>The entry \<open>e\<close> has a midpoint, and it equals the key \<open>k\<close>.\<close>

definition has_midpoint :: "datetime \<Rightarrow> 'g entry \<Rightarrow> bool" where
  "has_midpoint k e =
     (case average_datetime (start_date e) (end_date e) of
        Inl err \<Rightarrow> False
      | Inr date \<Rightarrow> dt_eq k date)"

subsection \<open>A geometry for examples: axis-parallel boxes\<close>

record box =
  xmin :: real
  ymin :: real
  xmax :: real
  ymax :: real

definition box_area :: "box \<Rightarrow> real" where
  "box_area b =
     (if xmax b \<le> xmin b \<or> ymax b \<le> ymin b then 0
      else (xmax b - xmin b) * (ymax b - ymin b))"

definition box_intersection :: "box \<Rightarrow> box \<Rightarrow> box" where
  "box_intersection a b =
     \<lparr>xmin = max (xmin a) (xmin b), ymin = max (ymin a) (ymin b),
      xmax = min (xmax a) (xmax b), ymax = min (ymax a) (ymax b)\<rparr>"

subsection \<open>Notions used in the proofs\<close>

text \<open>The time difference that \<open>_value_date\<close> scores: the direct difference where the
  subtraction is defined, the difference of the wall clocks on the fallback path.\<close>

definition ddiff_of :: "datetime \<Rightarrow> datetime \<Rightarrow> timedelta" where
  "ddiff_of a b = (case dt_sub a b of Inr d \<Rightarrow> d | Inl err \<Rightarrow> wall_us a - wall_us b)"

text \<open>The absolute difference in hours between two dates.\<close>

definition diff_hours_of :: "datetime \<Rightarrow> datetime \<Rightarrow> real" where
  "diff_hours_of a b = \<bar>total_seconds (ddiff_of a b) / 3600\<bar>"

text \<open>Two datetimes are equal as dictionary keys exactly when they have the same
  awareness and the same instant.\<close>

definition instant_key :: "datetime \<Rightarrow> bool \<times> int" where
  "instant_key d =
     (case tzinfo d of None \<Rightarrow> (False, wall_us d) | Some off \<Rightarrow> (True, wall_us d - off))"

text \<open>The invariant of the grouping loop after the entries \<open>seen\<close>.\<close>

definition grouped :: "'g entry list \<Rightarrow> (datetime \<times> 'g entry list) list \<Rightarrow> bool" where
  "grouped seen gs \<longleftrightarrow>
     distinct (map (instant_key \<circ> fst) gs) \<and>
     (\<forall>(k, xs) \<in> set gs. xs \<noteq> [] \<and> xs = filter (has_midpoint k) seen) \<and>
     (\<forall>e \<in> set seen. \<exists>(k, xs) \<in> set gs. has_midpoint k e) \<and>
     mset (concat (map snd gs)) = mset seen"

text \<open>What one pass of the selector's loop does with a group: it raises, it skips the
  group, or the group competes with its temporal value.\<close>

datatype outcome = Raises py_error | Skipped | Candidate real

definition group_outcome ::
  "('g \<Rightarrow> real) \<Rightarrow> ('g \<Rightarrow> 'g \<Rightarrow> 'g) \<Rightarrow> 'g \<Rightarrow> datetime \<Rightarrow> real \<Rightarrow> real
     \<Rightarrow> datetime \<times> 'g entry list \<Rightarrow> outcome" where
  "group_outcome area intersection aoi_geom target_date max_diff_hours min_overlap_pct g =
     (case value_date (fst g) target_date max_diff_hours of
        Inl err \<Rightarrow> Raises err
      | Inr date_value \<Rightarrow>
          if date_value = 0 then Skipped
          else (case overlap_values area intersection (snd g) aoi_geom of
                  Inl err \<Rightarrow> Raises err
                | Inr vs \<Rightarrow> if sum_list vs < min_overlap_pct then Skipped
                            else Candidate date_value))"

subsection \<open>Example data\<close>

text \<open>Dates are given in hours after 2017-01-01 00:00:00 (day 736329 after
  0001-01-01); zones by their offset in hours.\<close>

definition naive_at :: "int \<Rightarrow> datetime" where
  "naive_at h = \<lparr>wall_us = 63618825600000000 + h * 3600000000, tzinfo = None\<rparr>"

definition aware_at :: "int \<Rightarrow> int \<Rightarrow> datetime" where
  "aware_at h off =
     \<lparr>wall_us = 63618825600000000 + h * 3600000000, tzinfo = Some (off * 3600000000)\<rparr>"

definition example_aoi :: box where
  "example_aoi = \<lparr>xmin = 0, ymin = 0, xmax = 10, ymax = 10\<rparr>"

text \<open>A footprint that covers the share \<open>w / 10\<close> of \<open>example_aoi\<close>.\<close>

definition strip_box :: "real \<Rightarrow> box" where
  "strip_box w = \<lparr>xmin = 0, ymin = 0, xmax = w, ymax = 10\<rparr>"

definition pass_entry :: "datetime \<Rightarrow> datetime \<Rightarrow> real \<Rightarrow> box entry" where
  "pass_entry s e w = \<lparr>start_date = s, end_date = e, footprint = strip_box w\<rparr>"

definition three_passes :: "box entry list" where
  "three_passes =
     [pass_entry (naive_at 9) (naive_at 11) 5,
      pass_entry (naive_at 39) (naive_at 41) 9,
      pass_entry (naive_at 8) (naive_at 12) 2]"


definition ranked_passes :: "box entry list" where
  "ranked_passes =
     [pass_entry (naive_at 0) (naive_at 2) 1,
      pass_entry (naive_at 9) (naive_at 11) 5,
      pass_entry (naive_at 39) (naive_at 41) 9,
      pass_entry (naive_at (-11)) (naive_at (-9)) 6]"

definition far_pass :: "box entry list" where
  "far_pass = [pass_entry (naive_at 59) (naive_at 61) 10]"

definition thin_pass :: "box entry list" where
  "thin_pass = [pass_entry (naive_at 9) (naive_at 11) 1]"

definition twin_passes :: "box entry list" where
  "twin_passes =
     [pass_entry (naive_at 9) (naive_at 11) 2, pass_entry (naive_at 9) (naive_at 11) 2]"

definition exact_pass :: "box entry list" where
  "exact_pass = [pass_entry (naive_at (-1)) (naive_at 1) 10]"

text \<open>An entry whose start is naive and whose end is aware.\<close>

definition mixed_pass :: "box entry list" where
  "mixed_pass = [pass_entry (naive_at 9) (aware_at 11 0) 5]"

text \<open>An entry from 9999-12-31 23:00 at UTC+14 to 9999-12-31 23:00 at UTC-14: both
  dates are valid, the end is 28 hours after the start.\<close>

definition late_pass :: "box entry list" where
  "late_pass =
     [pass_entry \<lparr>wall_us = 315537894000000000, tzinfo = Some 50400000000\<rparr>
                 \<lparr>wall_us = 315537894000000000, tzinfo = Some (- 50400000000)\<rparr> 5]"

lemmas example_defs =
  naive_at_def aware_at_def example_aoi_def strip_box_def pass_entry_def
  box_area_def box_intersection_def three_passes_def ranked_passes_def far_pass_def
  thin_pass_def twin_passes_def exact_pass_def mixed_pass_def late_pass_def

lemmas code_defs =
  get_best_overpass_def group_entries_by_date_def average_datetime_def dt_sub_def
  dt_add_def max_wall_us_def dt_eq_def td_truediv_def divide_and_round_def replace_tzinfo_None_def
  value_date_def value_date_with_def timepct_def total_seconds_def value_overlap_def
  Let_def

section \<open>Auxiliary lemmas\<close>

subsection \<open>Dates and the temporal value\<close>

lemma dt_sub_strip:
  "dt_sub (replace_tzinfo_None a) (replace_tzinfo_None b) = Inr (wall_us a - wall_us b)"
  by (simp add: dt_sub_def replace_tzinfo_None_def)

lemma dt_sub_TypeError_iff:
  "dt_sub a b = Inl err \<longleftrightarrow> err = TypeError \<and> (tzinfo a = None) \<noteq> (tzinfo b = None)"
  by (auto simp: dt_sub_def split: option.splits)

lemma timepct_pos:
  "0 < m \<Longrightarrow> timepct d m =
     Inr (if \<bar>total_seconds d / 3600\<bar> > m then 0 else (m - \<bar>total_seconds d / 3600\<bar>) / m)"
  by (simp add: timepct_def Let_def)

lemma timepct_range:
  assumes "timepct d m = Inr v" shows "0 \<le> v \<and> v \<le> 1"
proof (cases "\<bar>total_seconds d / 3600\<bar> > m")
  case True
  with assms show ?thesis by (simp add: timepct_def Let_def)
next
  case False
  then have le: "\<bar>total_seconds d / 3600\<bar> \<le> m" by simp
  with assms False have m0: "m \<noteq> 0" and v: "v = (m - \<bar>total_seconds d / 3600\<bar>) / m"
    by (auto simp: timepct_def Let_def split: if_splits)
  from le have "0 \<le> m" by linarith
  with m0 have mpos: "0 < m" by simp
  from le mpos show ?thesis unfolding v by (simp add: field_simps)
qed

lemma value_date_timepct: "value_date a b m = timepct (ddiff_of a b) m"
proof (cases "dt_sub a b")
  case (Inl err)
  then have "err = TypeError" by (simp add: dt_sub_TypeError_iff)
  with Inl show ?thesis
    by (simp add: value_date_def value_date_with_def ddiff_of_def dt_sub_strip)
next
  case (Inr d)
  then show ?thesis by (simp add: value_date_def value_date_with_def ddiff_of_def)
qed

lemma ddiff_of_sym: "ddiff_of b a = - ddiff_of a b"
  by (auto simp: ddiff_of_def dt_sub_def split: option.splits)

lemma timepct_neg: "timepct (- d) m = timepct d m"
  by (simp add: timepct_def total_seconds_def)

subsection \<open>Grouping\<close>

lemma dt_eq_key: "dt_eq a b \<longleftrightarrow> instant_key a = instant_key b"
  by (simp add: dt_eq_def instant_key_def split: option.splits)

lemma has_midpoint_key:
  "has_midpoint k e \<longleftrightarrow> (\<exists>m. average_datetime (start_date e) (end_date e) = Inr m \<and> instant_key k = instant_key m)"
  by (simp add: has_midpoint_def dt_eq_key split: sum.splits)

lemma append_instant_keys:
  "map (instant_key \<circ> fst) (append_to_group m e gs) =
     (if instant_key m \<in> set (map (instant_key \<circ> fst) gs) then map (instant_key \<circ> fst) gs
      else map (instant_key \<circ> fst) gs @ [instant_key m])"
  by (induction m e gs rule: append_to_group.induct) (auto simp: dt_eq_key)

lemma append_distinct:
  "distinct (map (instant_key \<circ> fst) gs) \<Longrightarrow> distinct (map (instant_key \<circ> fst) (append_to_group m e gs))"
  by (simp add: append_instant_keys)

lemma append_cases:
  "distinct (map (instant_key \<circ> fst) gs) \<Longrightarrow> (k, xs) \<in> set (append_to_group m e gs) \<Longrightarrow>
     (instant_key k \<noteq> instant_key m \<and> (k, xs) \<in> set gs) \<or>
     (instant_key k = instant_key m \<and> (\<exists>ys. (k, ys) \<in> set gs \<and> xs = ys @ [e])) \<or>
     (instant_key m \<notin> set (map (instant_key \<circ> fst) gs) \<and> k = m \<and> xs = [e])"
proof (induction m e gs rule: append_to_group.induct)
  case (1 date e)
  then show ?case by simp
next
  case (2 date e k' es gs)
  show ?case
  proof (cases "dt_eq k' date")
    case True
    with 2(2,3) show ?thesis by (auto simp: dt_eq_key image_iff) 
  next
    case False
    with 2 show ?thesis by (auto simp: dt_eq_key)
  qed
qed

lemma append_keeps:
  "(k, xs) \<in> set gs \<Longrightarrow> \<exists>ys. (k, ys) \<in> set (append_to_group m e gs)"
  by (induction m e gs rule: append_to_group.induct) auto

lemma append_has:
  "\<exists>k ys. (k, ys) \<in> set (append_to_group m e gs) \<and> instant_key k = instant_key m"
  by (induction m e gs rule: append_to_group.induct) (auto simp: dt_eq_key)

lemma append_mset:
  "mset (concat (map snd (append_to_group m e gs))) = add_mset e (mset (concat (map snd gs)))"
  by (induction m e gs rule: append_to_group.induct) auto

lemma grouped_step:
  assumes inv: "grouped seen gs"
    and mid: "average_datetime (start_date e) (end_date e) = Inr m"
  shows "grouped (seen @ [e]) (append_to_group m e gs)"
proof -
  from inv have d: "distinct (map (instant_key \<circ> fst) gs)"
    and f: "\<And>k xs. (k, xs) \<in> set gs \<Longrightarrow> xs \<noteq> [] \<and> xs = filter (has_midpoint k) seen"
    and c: "\<And>x. x \<in> set seen \<Longrightarrow> \<exists>(k, xs) \<in> set gs. has_midpoint k x"
    and ms: "mset (concat (map snd gs)) = mset seen"
    by (auto simp: grouped_def)
  have hm: "\<And>k. has_midpoint k e \<longleftrightarrow> instant_key k = instant_key m"
    using mid by (simp add: has_midpoint_key)
  have "xs \<noteq> [] \<and> xs = filter (has_midpoint k) (seen @ [e])"
    if "(k, xs) \<in> set (append_to_group m e gs)" for k xs
  proof -
    from append_cases[OF d that] consider
      (other) "instant_key k \<noteq> instant_key m" "(k, xs) \<in> set gs"
      | (same) ys where "instant_key k = instant_key m" "(k, ys) \<in> set gs" "xs = ys @ [e]"
      | (new) "instant_key m \<notin> set (map (instant_key \<circ> fst) gs)" "k = m" "xs = [e]"
      by blast
    then show ?thesis
    proof cases
      case other
      then have "filter (has_midpoint k) (seen @ [e]) = filter (has_midpoint k) seen"
        by (simp add: hm)
      with f[OF other(2)] show ?thesis by metis
    next
      case same
      then have "filter (has_midpoint k) (seen @ [e]) = filter (has_midpoint k) seen @ [e]"
        by (simp add: hm)
      with f[OF same(2)] same(3) show ?thesis by simp
    next
      case new
      have "filter (has_midpoint m) seen = []"
      proof (rule ccontr)
        assume "filter (has_midpoint m) seen \<noteq> []"
        then obtain x where x: "x \<in> set seen" "has_midpoint m x"
          by (auto simp: filter_empty_conv)
        from c[OF x(1)] obtain k' xs' where k': "(k', xs') \<in> set gs" "has_midpoint k' x" by auto
        from x(2) k'(2) have "instant_key k' = instant_key m" by (auto simp: has_midpoint_key)
        with k'(1) new(1) show False by force
      qed
      with new show ?thesis by (simp add: hm)
    qed
  qed
  moreover have "\<exists>(k, xs) \<in> set (append_to_group m e gs). has_midpoint k x"
    if "x \<in> set (seen @ [e])" for x
  proof (cases "x \<in> set seen")
    case True
    from c[OF True] obtain k xs where "(k, xs) \<in> set gs" "has_midpoint k x" by auto
    with append_keeps[of k xs gs m e] show ?thesis by auto
  next
    case False
    with that have "x = e" by simp
    with append_has[of m e gs] show ?thesis by (auto simp: hm)
  qed
  ultimately show ?thesis
    using append_distinct[OF d] ms by (auto simp: grouped_def append_mset)
qed

lemma group_loop_grouped:
  "group_loop es gs = Inr gs' \<Longrightarrow> grouped seen gs \<Longrightarrow> grouped (seen @ es) gs'"
proof (induction es arbitrary: gs seen)
  case Nil
  then show ?case by simp
next
  case (Cons e es)
  from Cons.prems(1) obtain m where m: "average_datetime (start_date e) (end_date e) = Inr m"
    and rest: "group_loop es (append_to_group m e gs) = Inr gs'"
    by (auto split: sum.splits)
  from Cons.IH[OF rest grouped_step[OF Cons.prems(2) m]] show ?case by simp
qed

lemma group_entries_grouped:
  "group_entries_by_date es = Inr gs \<Longrightarrow> grouped es gs"
  using group_loop_grouped[of es "[]" gs "[]"] by (simp add: group_entries_by_date_def grouped_def)

lemma divide_and_round_2_bounds:
  "(0 \<le> t \<longrightarrow> 0 \<le> divide_and_round t 2 \<and> divide_and_round t 2 \<le> t) \<and>
   (t \<le> 0 \<longrightarrow> t \<le> divide_and_round t 2 \<and> divide_and_round t 2 \<le> 0)"
  unfolding divide_and_round_def Let_def by presburger

lemma average_datetime_ok:
  assumes "tzinfo d1 = tzinfo d2" "valid_datetime d1" "valid_datetime d2"
  shows "\<exists>m. average_datetime d1 d2 = Inr m"
proof -
  have s: "dt_sub d2 d1 = Inr (wall_us d2 - wall_us d1)"
    using assms(1) by (simp add: dt_sub_def split: option.splits)
  from divide_and_round_2_bounds[of "wall_us d2 - wall_us d1"] assms(2,3)
  have "0 \<le> wall_us d1 + divide_and_round (wall_us d2 - wall_us d1) 2 \<and>
        wall_us d1 + divide_and_round (wall_us d2 - wall_us d1) 2 \<le> max_wall_us"
    unfolding valid_datetime_def by linarith
  with s show ?thesis by (simp add: average_datetime_def dt_add_def td_truediv_def)
qed

lemma group_loop_returns_iff:
  "(\<exists>gs'. group_loop es gs = Inr gs') \<longleftrightarrow>
     (\<forall>e \<in> set es. \<exists>m. average_datetime (start_date e) (end_date e) = Inr m)"
proof (induction es arbitrary: gs)
  case Nil
  then show ?case by simp
next
  case (Cons e es)
  show ?case
  proof (cases "average_datetime (start_date e) (end_date e)")
    case (Inl err)
    then show ?thesis by simp
  next
    case (Inr m)
    with Cons.IH[of "append_to_group m e gs"] show ?thesis by simp
  qed
qed

lemma grouped_same_key:
  assumes "grouped seen gs" "i < length gs" "j < length gs"
    "dt_eq (fst (gs ! i)) (fst (gs ! j))"
  shows "i = j"
proof -
  from assms(1) have d: "distinct (map (instant_key \<circ> fst) gs)" by (simp add: grouped_def)
  from assms(4) have "map (instant_key \<circ> fst) gs ! i = map (instant_key \<circ> fst) gs ! j"
    using assms(2,3) by (simp add: dt_eq_key)
  with nth_eq_iff_index_eq[OF d, of i j] assms(2,3) show ?thesis by simp
qed

lemma has_midpoint_same:
  "has_midpoint k1 e \<Longrightarrow> has_midpoint k2 e \<Longrightarrow> dt_eq k1 k2"
  by (auto simp: has_midpoint_key dt_eq_key)

lemma dt_sub_nonzero_neq: "dt_sub m1 m2 = Inr d \<Longrightarrow> d \<noteq> 0 \<Longrightarrow> \<not> dt_eq m1 m2"
  by (auto simp: dt_sub_def dt_eq_def split: option.splits)


lemma average_datetime_error:
  "average_datetime d1 d2 = Inl err \<Longrightarrow> err = TypeError \<or> err = OverflowError"
  by (auto simp: average_datetime_def dt_add_def dt_sub_TypeError_iff
      split: sum.splits if_splits)

lemma group_loop_error:
  "group_loop es gs = Inl err \<Longrightarrow> err = TypeError \<or> err = OverflowError"
proof (induction es arbitrary: gs)
  case Nil
  then show ?case by simp
next
  case (Cons e es)
  show ?case
  proof (cases "average_datetime (start_date e) (end_date e)")
    case (Inl err')
    with Cons.prems average_datetime_error[OF Inl] show ?thesis by simp
  next
    case (Inr m)
    with Cons.prems Cons.IH[of "append_to_group m e gs"] show ?thesis by simp
  qed
qed

subsection \<open>The selector\<close>

lemma scan_groups_Cons:
  "scan_groups area isect aoi target mdh mop ((k, es) # gs) (bv, be) =
     (case group_outcome area isect aoi target mdh mop (k, es) of
        Raises err \<Rightarrow> Inl err
      | Skipped \<Rightarrow> scan_groups area isect aoi target mdh mop gs (bv, be)
      | Candidate dv \<Rightarrow>
          if dv > bv then scan_groups area isect aoi target mdh mop gs (dv, Some es)
          else scan_groups area isect aoi target mdh mop gs (bv, be))"
  by (simp add: group_outcome_def split: sum.splits)

lemma qualifies_outcome:
  "qualifies area isect aoi target mdh mop g w \<longleftrightarrow>
     group_outcome area isect aoi target mdh mop g = Candidate w"
  by (auto simp: qualifies_def group_outcome_def split: sum.splits)

lemma skipped_outcome:
  "skipped area isect aoi target mdh mop g \<longleftrightarrow>
     group_outcome area isect aoi target mdh mop g = Skipped"
  by (auto simp: skipped_def group_outcome_def split: sum.splits)

lemma scan_groups_char:
  "scan_groups area isect aoi target mdh mop gs (bv, be) = Inr (bv', be') \<Longrightarrow>
     (bv' = bv \<and> be' = be \<and>
        (\<forall>g \<in> set gs. \<forall>w. group_outcome area isect aoi target mdh mop g = Candidate w \<longrightarrow> w \<le> bv)) \<or>
     (\<exists>pre k es post. gs = pre @ (k, es) # post \<and>
        group_outcome area isect aoi target mdh mop (k, es) = Candidate bv' \<and>
        be' = Some es \<and> bv < bv' \<and>
        (\<forall>g \<in> set pre. \<forall>w. group_outcome area isect aoi target mdh mop g = Candidate w \<longrightarrow> w < bv') \<and>
        (\<forall>g \<in> set post. \<forall>w. group_outcome area isect aoi target mdh mop g = Candidate w \<longrightarrow> w \<le> bv'))"
  (is "_ \<Longrightarrow> ?Keep gs bv be \<or> ?Win gs bv")
proof (induction gs arbitrary: bv be)
  case Nil
  then show ?case by simp
next
  case (Cons g gs)
  obtain k es where g: "g = (k, es)" by (cases g)
  let ?o = "group_outcome area isect aoi target mdh mop (k, es)"
  have ext: "?Win (g # gs) b" if w: "?Win gs b0" and b: "b \<le> b0"
    and h: "\<And>w. ?o = Candidate w \<Longrightarrow> w \<le> b0" for b b0
  proof -
    from w obtain pre k' es' post where p: "gs = pre @ (k', es') # post"
      "group_outcome area isect aoi target mdh mop (k', es') = Candidate bv'"
      "be' = Some es'" "b0 < bv'"
      "\<forall>g \<in> set pre. \<forall>w. group_outcome area isect aoi target mdh mop g = Candidate w \<longrightarrow> w < bv'"
      "\<forall>g \<in> set post. \<forall>w. group_outcome area isect aoi target mdh mop g = Candidate w \<longrightarrow> w \<le> bv'"
      by blast
    have "g # gs = (g # pre) @ (k', es') # post" using p(1) by simp
    moreover have "\<forall>x \<in> set (g # pre). \<forall>w. group_outcome area isect aoi target mdh mop x = Candidate w \<longrightarrow> w < bv'"
      using p(4,5) h g by fastforce
    moreover have "b < bv'" using b p(4) by simp
    ultimately show ?thesis using p(2,3,6) by blast
  qed
  show ?case
  proof (cases ?o)
    case (Raises err)
    with Cons.prems g show ?thesis by (simp add: scan_groups_Cons del: scan_groups.simps)
  next
    case Skipped
    with Cons.prems g have "scan_groups area isect aoi target mdh mop gs (bv, be) = Inr (bv', be')"
      by (simp add: scan_groups_Cons del: scan_groups.simps)
    from Cons.IH[OF this] show ?thesis
    proof
      assume "?Keep gs bv be"
      with Skipped g show ?thesis by simp
    next
      assume "?Win gs bv"
      from ext[OF this, of bv] Skipped show ?thesis by simp
    qed
  next
    case (Candidate dv)
    show ?thesis
    proof (cases "dv > bv")
      case True
      with Candidate Cons.prems g
      have "scan_groups area isect aoi target mdh mop gs (dv, Some es) = Inr (bv', be')"
        by (simp add: scan_groups_Cons del: scan_groups.simps)
      from Cons.IH[OF this] show ?thesis
      proof
        assume "?Keep gs dv (Some es)"
        then have "g # gs = [] @ (k, es) # gs" "?o = Candidate bv'" "be' = Some es" "bv < bv'"
          "\<forall>g \<in> set gs. \<forall>w. group_outcome area isect aoi target mdh mop g = Candidate w \<longrightarrow> w \<le> bv'"
          using g Candidate True by simp_all
        then have "?Win (g # gs) bv" by (metis empty_iff empty_set)
        then show ?thesis ..
      next
        assume "?Win gs dv"
        from ext[OF this, of bv] True Candidate show ?thesis by simp
      qed
    next
      case False
      with Candidate Cons.prems g
      have "scan_groups area isect aoi target mdh mop gs (bv, be) = Inr (bv', be')"
        by (simp add: scan_groups_Cons del: scan_groups.simps)
      from Cons.IH[OF this] show ?thesis
      proof
        assume "?Keep gs bv be"
        with Candidate False g show ?thesis by simp
      next
        assume "?Win gs bv"
        from ext[OF this, of bv] False Candidate show ?thesis by simp
      qed
    qed
  qed
qed

lemma overlap_values_ok:
  "area aoi \<noteq> 0 \<Longrightarrow> overlap_values area isect es aoi =
     Inr (map (\<lambda>e. area (isect aoi (footprint e)) / area aoi) es)"
  by (induction es) (simp_all add: value_overlap_def)

lemma value_date_ok: "m \<noteq> 0 \<Longrightarrow> \<exists>v. value_date a b m = Inr v"
  by (simp add: value_date_timepct timepct_def Let_def)

lemma group_outcome_ok:
  assumes "mdh \<noteq> 0" "area aoi \<noteq> 0"
  shows "group_outcome area isect aoi target mdh mop g \<noteq> Raises err"
proof -
  obtain v where "value_date (fst g) target mdh = Inr v"
    using value_date_ok[OF assms(1)] by blast
  moreover note overlap_values_ok[of area aoi isect "snd g", OF assms(2)]
  ultimately show ?thesis by (simp add: group_outcome_def)
qed

lemma scan_groups_ok:
  "mdh \<noteq> 0 \<Longrightarrow> area aoi \<noteq> 0 \<Longrightarrow>
     \<exists>st. scan_groups area isect aoi target mdh mop gs (bv, be) = Inr st"
proof (induction gs arbitrary: bv be)
  case Nil
  then show ?case by simp
next
  case (Cons g gs)
  obtain k es where g: "g = (k, es)" by (cases g)
  show ?case
    using Cons.IH[OF Cons.prems]
      group_outcome_ok[of mdh area aoi isect target mop "(k, es)", OF Cons.prems]
    unfolding g scan_groups_Cons
    by (cases "group_outcome area isect aoi target mdh mop (k, es)") auto
qed

lemma candidate_pos:
  "group_outcome area isect aoi target mdh mop g = Candidate w \<Longrightarrow> 0 < w"
proof -
  assume "group_outcome area isect aoi target mdh mop g = Candidate w"
  then have "value_date (fst g) target mdh = Inr w" "w \<noteq> 0"
    by (auto simp: group_outcome_def split: sum.splits if_splits)
  with timepct_range[of "ddiff_of (fst g) target" mdh w] show ?thesis
    by (simp add: value_date_timepct)
qed

lemma value_date_error: "value_date a b m = Inl err \<Longrightarrow> err = ZeroDivisionError"
  by (auto simp: value_date_timepct timepct_def Let_def split: if_splits)

lemma overlap_values_error:
  "overlap_values area isect es aoi = Inl err \<Longrightarrow> err = ZeroDivisionError"
  by (induction es) (auto simp: value_overlap_def split: if_splits sum.splits)

lemma group_outcome_error:
  "group_outcome area isect aoi target mdh mop g = Raises err \<Longrightarrow> err = ZeroDivisionError"
  by (auto simp: group_outcome_def split: sum.splits if_splits
      dest: value_date_error overlap_values_error)

lemma scan_groups_error:
  "scan_groups area isect aoi target mdh mop gs (bv, be) = Inl err \<Longrightarrow> err = ZeroDivisionError"
proof (induction gs arbitrary: bv be)
  case Nil
  then show ?case by simp
next
  case (Cons g gs)
  obtain k es where g: "g = (k, es)" by (cases g)
  show ?case
  proof (cases "group_outcome area isect aoi target mdh mop (k, es)")
    case (Raises e)
    with Cons.prems g group_outcome_error[OF Raises] show ?thesis
      by (simp add: scan_groups_Cons del: scan_groups.simps)
  next
    case Skipped
    with Cons.prems g Cons.IH show ?thesis
      by (simp add: scan_groups_Cons del: scan_groups.simps)
  next
    case (Candidate dv)
    with Cons.prems g Cons.IH show ?thesis
      by (simp add: scan_groups_Cons del: scan_groups.simps split: if_splits)
  qed
qed

lemma get_best_overpass_returns:
  assumes "get_best_overpass area isect entries aoi target mdh mop = Inr r"
  shows "\<exists>gs pre k es post v.
           group_entries_by_date entries = Inr gs \<and> gs = pre @ (k, es) # post \<and>
           r = Some es \<and>
           group_outcome area isect aoi target mdh mop (k, es) = Candidate v \<and>
           (\<forall>g \<in> set pre. \<forall>w.
              group_outcome area isect aoi target mdh mop g = Candidate w \<longrightarrow> w < v) \<and>
           (\<forall>g \<in> set post. \<forall>w.
              group_outcome area isect aoi target mdh mop g = Candidate w \<longrightarrow> w \<le> v)"
proof -
  from assms obtain gs bv' be' where gs: "group_entries_by_date entries = Inr gs"
    and sc: "scan_groups area isect aoi target mdh mop gs (0, None) = Inr (bv', be')"
    and nz: "bv' \<noteq> 0" and r: "r = be'"
    by (auto simp: get_best_overpass_def split: sum.splits if_splits)
  from scan_groups_char[OF sc] nz r gs show ?thesis by blast
qed

lemma get_best_overpass_no_candidate:
  assumes "get_best_overpass area isect entries aoi target mdh mop = Inl ValueError"
  shows "\<exists>gs. group_entries_by_date entries = Inr gs \<and>
           (\<forall>g \<in> set gs. \<forall>w. group_outcome area isect aoi target mdh mop g \<noteq> Candidate w)"
proof (cases "group_entries_by_date entries")
  case (Inl err)
  then have "err = TypeError \<or> err = OverflowError"
    unfolding group_entries_by_date_def by (rule group_loop_error)
  with Inl assms show ?thesis by (simp add: get_best_overpass_def)
next
  case (Inr gs)
  show ?thesis
  proof (cases "scan_groups area isect aoi target mdh mop gs (0, None)")
    case (Inl err)
    then have "err = ZeroDivisionError" by (rule scan_groups_error)
    with Inl Inr assms show ?thesis by (simp add: get_best_overpass_def)
  next
    case sc: (Inr st)
    obtain bv' be' where st: "st = (bv', be')" by (cases st)
    with sc Inr assms have z: "bv' = 0"
      by (simp add: get_best_overpass_def split: if_splits)
    from scan_groups_char[OF sc[unfolded st]] z
    have "\<forall>g \<in> set gs. \<forall>w.
            group_outcome area isect aoi target mdh mop g = Candidate w \<longrightarrow> w \<le> 0"
      by auto
    with candidate_pos[of area isect aoi target mdh mop] Inr show ?thesis
      by (metis not_less)
  qed
qed

lemma get_best_overpass_scan:
  assumes "mdh \<noteq> 0" "area aoi \<noteq> 0" "group_entries_by_date entries = Inr gs"
  shows "(\<exists>g \<in> set gs. \<exists>w. group_outcome area isect aoi target mdh mop g = Candidate w) \<longrightarrow>
           (\<exists>es. get_best_overpass area isect entries aoi target mdh mop = Inr (Some es))"
    and "(\<forall>g \<in> set gs. \<forall>w. group_outcome area isect aoi target mdh mop g \<noteq> Candidate w) \<longrightarrow>
           get_best_overpass area isect entries aoi target mdh mop = Inl ValueError"
proof -
  obtain bv' be' where sc: "scan_groups area isect aoi target mdh mop gs (0, None) = Inr (bv', be')"
    using scan_groups_ok[of mdh area aoi isect target mop gs 0 None, OF assms(1,2)] by auto
  note ch = scan_groups_char[OF sc]
  show "(\<exists>g \<in> set gs. \<exists>w. group_outcome area isect aoi target mdh mop g = Candidate w) \<longrightarrow>
           (\<exists>es. get_best_overpass area isect entries aoi target mdh mop = Inr (Some es))"
  proof
    assume "\<exists>g \<in> set gs. \<exists>w. group_outcome area isect aoi target mdh mop g = Candidate w"
    then obtain g w where g: "g \<in> set gs"
      "group_outcome area isect aoi target mdh mop g = Candidate w" by blast
    from candidate_pos[OF g(2)] have "0 < w" .
    with ch g have "0 < bv' \<and> (\<exists>es. be' = Some es)" by (auto simp: not_le)
    with sc assms(3) show "\<exists>es. get_best_overpass area isect entries aoi target mdh mop = Inr (Some es)"
      by (auto simp: get_best_overpass_def)
  qed
  show "(\<forall>g \<in> set gs. \<forall>w. group_outcome area isect aoi target mdh mop g \<noteq> Candidate w) \<longrightarrow>
           get_best_overpass area isect entries aoi target mdh mop = Inl ValueError"
  proof
    assume "\<forall>g \<in> set gs. \<forall>w. group_outcome area isect aoi target mdh mop g \<noteq> Candidate w"
    with ch have "bv' = 0" by auto
    with sc assms(3) show "get_best_overpass area isect entries aoi target mdh mop = Inl ValueError"
      by (simp add: get_best_overpass_def)
  qed
qed

lemma scan_groups_all_skipped:
  "\<forall>g \<in> set gs. group_outcome area isect aoi target mdh mop g = Skipped \<Longrightarrow>
     scan_groups area isect aoi target mdh mop gs (bv, be) = Inr (bv, be)"
proof (induction gs)
  case Nil
  then show ?case by simp
next
  case (Cons g gs)
  obtain k es where g: "g = (k, es)" by (cases g)
  from Cons.prems g have "group_outcome area isect aoi target mdh mop (k, es) = Skipped"
    by simp
  with Cons g show ?case by (simp add: scan_groups_Cons del: scan_groups.simps)
qed

lemma scan_groups_no_raise:
  "scan_groups area isect aoi target mdh mop gs (bv, be) = Inr st \<Longrightarrow> g \<in> set gs \<Longrightarrow>
     group_outcome area isect aoi target mdh mop g \<noteq> Raises err"
proof (induction gs arbitrary: bv be)
  case Nil
  then show ?case by simp
next
  case (Cons h gs)
  obtain k es where h: "h = (k, es)" by (cases h)
  show ?case
  proof (cases "group_outcome area isect aoi target mdh mop (k, es)")
    case (Raises e)
    with Cons.prems(1) h show ?thesis
      by (simp add: scan_groups_Cons del: scan_groups.simps)
  next
    case Skipped
    with Cons.prems(1) h
    have "scan_groups area isect aoi target mdh mop gs (bv, be) = Inr st"
      by (simp add: scan_groups_Cons del: scan_groups.simps)
    from Cons.IH[OF this] Cons.prems(2) Skipped h show ?thesis by auto
  next
    case (Candidate dv)
    with Cons.prems(1) h
    have "\<exists>b. scan_groups area isect aoi target mdh mop gs b = Inr st"
      by (auto simp: scan_groups_Cons simp del: scan_groups.simps split: if_splits)
    then obtain bv2 be2 where
      "scan_groups area isect aoi target mdh mop gs (bv2, be2) = Inr st"
      by (metis surj_pair)
    from Cons.IH[OF this] Cons.prems(2) Candidate h show ?thesis by auto
  qed
qed

lemma get_best_overpass_ValueError_iff:
  "get_best_overpass area isect entries aoi target mdh mop = Inl ValueError \<longleftrightarrow>
     (\<exists>gs. group_entries_by_date entries = Inr gs \<and>
           (\<forall>g \<in> set gs. group_outcome area isect aoi target mdh mop g = Skipped))"
proof
  assume r: "get_best_overpass area isect entries aoi target mdh mop = Inl ValueError"
  from get_best_overpass_no_candidate[OF r] obtain gs where
    gs: "group_entries_by_date entries = Inr gs"
    and nc: "\<forall>g \<in> set gs. \<forall>w. group_outcome area isect aoi target mdh mop g \<noteq> Candidate w"
    by blast
  have "\<exists>st. scan_groups area isect aoi target mdh mop gs (0, None) = Inr st"
  proof (cases "scan_groups area isect aoi target mdh mop gs (0, None)")
    case (Inl err)
    then have "err = ZeroDivisionError" by (rule scan_groups_error)
    with Inl gs r show ?thesis by (simp add: get_best_overpass_def)
  next
    case (Inr st)
    then show ?thesis by blast
  qed
  then obtain st where st: "scan_groups area isect aoi target mdh mop gs (0, None) = Inr st" ..
  have "\<forall>g \<in> set gs. group_outcome area isect aoi target mdh mop g = Skipped"
  proof
    fix g assume g: "g \<in> set gs"
    from scan_groups_no_raise[OF st g] nc g show
      "group_outcome area isect aoi target mdh mop g = Skipped"
      by (cases "group_outcome area isect aoi target mdh mop g") auto
  qed
  with gs show "\<exists>gs. group_entries_by_date entries = Inr gs \<and>
           (\<forall>g \<in> set gs. group_outcome area isect aoi target mdh mop g = Skipped)"
    by blast
next
  assume "\<exists>gs. group_entries_by_date entries = Inr gs \<and>
           (\<forall>g \<in> set gs. group_outcome area isect aoi target mdh mop g = Skipped)"
  then obtain gs where gs: "group_entries_by_date entries = Inr gs"
    and sk: "\<forall>g \<in> set gs. group_outcome area isect aoi target mdh mop g = Skipped"
    by blast
  from scan_groups_all_skipped[OF sk, of 0 None] gs
  show "get_best_overpass area isect entries aoi target mdh mop = Inl ValueError"
    by (simp add: get_best_overpass_def)
qed

lemma skipped_iff_no_pass_no_raise:
  "skipped area isect aoi target mdh mop g \<longleftrightarrow>
     (\<forall>w. \<not> qualifies area isect aoi target mdh mop g w) \<and>
     (\<forall>err. group_outcome area isect aoi target mdh mop g \<noteq> Raises err)"
  unfolding skipped_outcome qualifies_outcome
  by (cases "group_outcome area isect aoi target mdh mop g") auto

lemma value_date_zero_cutoff:
  "value_date a b 0 = (if diff_hours_of a b = 0 then Inl ZeroDivisionError else Inr 0)"
  by (simp add: value_date_timepct timepct_def diff_hours_of_def Let_def)

lemma scan_groups_zero_cutoff:
  "scan_groups area isect aoi target 0 mop gs (bv, be) =
     (if \<exists>g \<in> set gs. diff_hours_of (fst g) target = 0 then Inl ZeroDivisionError
      else Inr (bv, be))"
proof (induction gs arbitrary: bv be)
  case Nil
  then show ?case by simp
next
  case (Cons g gs)
  obtain k es where g: "g = (k, es)" by (cases g)
  show ?case
  proof (cases "diff_hours_of k target = 0")
    case True
    then show ?thesis by (simp add: g value_date_zero_cutoff)
  next
    case False
    then show ?thesis using Cons.IH by (simp add: g value_date_zero_cutoff)
  qed
qed


section \<open>The claims\<close>

subsection \<open>Temporal value\<close>

lemma diff_hours_of_nonneg: "0 \<le> diff_hours_of a b"
  by (simp add: diff_hours_of_def)

lemma value_date_formula:
  "0 < m \<Longrightarrow> value_date a b m =
     Inr (if diff_hours_of a b > m then 0 else (m - diff_hours_of a b) / m)"
  by (simp add: value_date_timepct timepct_pos diff_hours_of_def)

text \<open>
  Claim C3. For all dates and every positive \<open>max_diff_hours\<close>, \<open>_value_date\<close> returns
  a value: 0 when the absolute difference in hours exceeds \<open>max_diff_hours\<close>, and
  \<open>(max_diff_hours - diff_hours) / max_diff_hours\<close> otherwise; the value lies between
  0 and 1.
\<close>

theorem value_date_piecewise:
  assumes "0 < max_diff_hours"
  shows "\<exists>v. value_date overpass_date target_date max_diff_hours = Inr v \<and>
           v = (if diff_hours_of overpass_date target_date > max_diff_hours then 0
                else (max_diff_hours - diff_hours_of overpass_date target_date)
                       / max_diff_hours) \<and>
           0 \<le> v \<and> v \<le> 1"
proof -
  let ?v = "if diff_hours_of overpass_date target_date > max_diff_hours then 0
            else (max_diff_hours - diff_hours_of overpass_date target_date) / max_diff_hours"
  have eq: "value_date overpass_date target_date max_diff_hours = Inr ?v"
    using assms by (rule value_date_formula)
  then have "timepct (ddiff_of overpass_date target_date) max_diff_hours = Inr ?v"
    by (simp add: value_date_timepct)
  from timepct_range[OF this] eq show ?thesis by blast
qed

theorem value_date_piecewise_witness:
  "(0::real) < 48 \<and>
   diff_hours_of (naive_at 10) (naive_at 0) = 10 \<and>
   value_date (naive_at 10) (naive_at 0) 48 = Inr (19 / 24) \<and>
   diff_hours_of (naive_at 60) (naive_at 0) = 60 \<and>
   value_date (naive_at 60) (naive_at 0) 48 = Inr 0"
  using value_date_piecewise[of 48 "naive_at 10" "naive_at 0"]
    value_date_piecewise[of 48 "naive_at 60" "naive_at 0"]
  by (auto simp: diff_hours_of_def ddiff_of_def dt_sub_def total_seconds_def naive_at_def)

text \<open>
  Claim C6. For a fixed target date and a positive \<open>max_diff_hours\<close>, the temporal value
  does not increase when the absolute difference to the target grows; it is 1 at
  difference zero, and 0 at the difference \<open>max_diff_hours\<close> and at every larger one.
\<close>

theorem value_date_monotone:
  assumes "0 < max_diff_hours"
  shows "(diff_hours_of d1 target_date \<le> diff_hours_of d2 target_date \<longrightarrow>
            (\<exists>v1 v2. value_date d1 target_date max_diff_hours = Inr v1 \<and>
                     value_date d2 target_date max_diff_hours = Inr v2 \<and> v2 \<le> v1)) \<and>
         (diff_hours_of d1 target_date = 0 \<longrightarrow>
            value_date d1 target_date max_diff_hours = Inr 1) \<and>
         (max_diff_hours \<le> diff_hours_of d1 target_date \<longrightarrow>
            value_date d1 target_date max_diff_hours = Inr 0)"
  using assms diff_hours_of_nonneg[of d1 target_date]
  by (auto simp: value_date_formula divide_right_mono field_simps)

theorem value_date_monotone_witness:
  "(0::real) < 48 \<and>
   diff_hours_of (naive_at 10) (naive_at 0) \<le> diff_hours_of (naive_at (-40)) (naive_at 0) \<and>
   value_date (naive_at 10) (naive_at 0) 48 = Inr (19 / 24) \<and>
   value_date (naive_at (-40)) (naive_at 0) 48 = Inr (1 / 6) \<and>
   value_date (naive_at 0) (naive_at 0) 48 = Inr 1 \<and>
   value_date (naive_at 48) (naive_at 0) 48 = Inr 0 \<and>
   value_date (naive_at 49) (naive_at 0) 48 = Inr 0"
  using value_date_monotone[of 48 "naive_at 10" "naive_at 0" "naive_at (-40)"]
    value_date_monotone[of 48 "naive_at 0" "naive_at 0"]
    value_date_monotone[of 48 "naive_at 48" "naive_at 0"]
    value_date_monotone[of 48 "naive_at 49" "naive_at 0"]
  by (simp add: code_defs naive_at_def diff_hours_of_def ddiff_of_def)

text \<open>
  Claim C7. \<open>_value_date\<close> is symmetric in its two dates, for every \<open>max_diff_hours\<close>,
  on the direct path and on the fallback path alike (results and exceptions agree).
\<close>

theorem value_date_symmetric:
  "value_date overpass_date target_date max_diff_hours =
   value_date target_date overpass_date max_diff_hours"
  by (simp add: value_date_timepct ddiff_of_sym[of overpass_date target_date] timepct_neg)

text \<open>
  Claim C8. When the first subtraction raises TypeError, \<open>_value_date\<close> strips the
  zone of both dates and subtracts once more: a result of that second subtraction is
  scored as usual, an exception of it is the exception of the call. For datetimes the
  first subtraction raises exactly when one date is aware and the other naive, and the
  second subtraction then yields the difference of the wall clocks.
\<close>

theorem value_date_retry_once:
  "(sub overpass_date target_date = Inl TypeError \<longrightarrow>
      value_date_with sub strip overpass_date target_date max_diff_hours =
        (case sub (strip overpass_date) (strip target_date) of
           Inl err \<Rightarrow> Inl err
         | Inr ddiff \<Rightarrow> timepct ddiff max_diff_hours)) \<and>
   ((tzinfo a = None) \<noteq> (tzinfo b = None) \<longrightarrow>
      dt_sub a b = Inl TypeError \<and>
      dt_sub (replace_tzinfo_None a) (replace_tzinfo_None b) = Inr (wall_us a - wall_us b) \<and>
      value_date a b max_diff_hours = timepct (wall_us a - wall_us b) max_diff_hours)"
proof (intro conjI impI)
  assume "sub overpass_date target_date = Inl TypeError"
  then show "value_date_with sub strip overpass_date target_date max_diff_hours =
        (case sub (strip overpass_date) (strip target_date) of
           Inl err \<Rightarrow> Inl err
         | Inr ddiff \<Rightarrow> timepct ddiff max_diff_hours)"
    by (simp add: value_date_with_def split: sum.splits)
next
  assume m: "(tzinfo a = None) \<noteq> (tzinfo b = None)"
  then show e: "dt_sub a b = Inl TypeError" by (simp add: dt_sub_TypeError_iff)
  show "dt_sub (replace_tzinfo_None a) (replace_tzinfo_None b) = Inr (wall_us a - wall_us b)"
    by (rule dt_sub_strip)
  from e show "value_date a b max_diff_hours = timepct (wall_us a - wall_us b) max_diff_hours"
    by (simp add: value_date_timepct ddiff_of_def)
qed

theorem value_date_retry_once_witness:
  "dt_sub (naive_at 10) (aware_at 0 1) = Inl TypeError \<and>
   value_date (naive_at 10) (aware_at 0 1) 48 = Inr (19 / 24) \<and>
   value_date_with (\<lambda>(a::string) b. Inl TypeError) (\<lambda>a. a) ''2017-01-01'' ''2017-01-02'' 48
     = Inl TypeError"
  using value_date_retry_once[of dt_sub "naive_at 10" "aware_at 0 1" replace_tzinfo_None 48
      "naive_at 10" "aware_at 0 1"]
    value_date_retry_once[of "\<lambda>(a::string) b. Inl TypeError" "''2017-01-01''" "''2017-01-02''"
      "\<lambda>a. a" 48 "naive_at 10" "aware_at 0 1"]
  by (simp add: naive_at_def aware_at_def timepct_def total_seconds_def)

subsection \<open>Grouping\<close>

text \<open>
  Claim C4. When \<open>group_entries_by_date\<close> returns, every group is exactly the
  subsequence of the input whose midpoint equals the group's key (so it is not empty,
  keeps the input order and repeats what the input repeats), every entry has its
  midpoint as the key of exactly one group, no two groups have equal keys, and the
  groups together hold the entries of the input with their multiplicities. An entry
  whose midpoint differs from a key is not in that key's group, and two midpoints with
  a difference other than zero are different keys. The function returns exactly when
  the midpoint of every entry can be computed, in particular whenever the two dates of
  every entry are valid datetimes with the same tzinfo; otherwise the exception of the
  midpoint (TypeError, OverflowError) is the exception of the call. Equality of keys is
  the equality of Python datetimes, \<open>dt_eq\<close>.
\<close>

theorem group_entries_by_date_partition:
  "(group_entries_by_date entries = Inr gs \<longrightarrow>
      (\<forall>(k, es) \<in> set gs. es \<noteq> [] \<and> es = filter (has_midpoint k) entries) \<and>
      (\<forall>e \<in> set entries. \<exists>!i. i < length gs \<and> has_midpoint (fst (gs ! i)) e) \<and>
      (\<forall>i < length gs. \<forall>j < length gs. dt_eq (fst (gs ! i)) (fst (gs ! j)) \<longrightarrow> i = j) \<and>
      mset (concat (map snd gs)) = mset entries) \<and>
   (has_midpoint k e1 \<and> average_datetime (start_date e2) (end_date e2) = Inr m2 \<and>
      \<not> dt_eq k m2 \<longrightarrow> \<not> has_midpoint k e2) \<and>
   (dt_sub m1 m2 = Inr d \<and> d \<noteq> 0 \<longrightarrow> \<not> dt_eq m1 m2) \<and>
   ((\<exists>gs'. group_entries_by_date entries = Inr gs') \<longleftrightarrow>
      (\<forall>e \<in> set entries. \<exists>m. average_datetime (start_date e) (end_date e) = Inr m)) \<and>
   ((\<forall>e \<in> set entries. tzinfo (start_date e) = tzinfo (end_date e) \<and>
        valid_datetime (start_date e) \<and> valid_datetime (end_date e)) \<longrightarrow>
      (\<exists>gs'. group_entries_by_date entries = Inr gs'))"
proof (intro conjI impI)
  assume r: "group_entries_by_date entries = Inr gs"
  then have g: "grouped entries gs" by (rule group_entries_grouped)
  then show "\<forall>(k, es) \<in> set gs. es \<noteq> [] \<and> es = filter (has_midpoint k) entries"
    by (simp add: grouped_def)
  show "mset (concat (map snd gs)) = mset entries"
    using g by (simp add: grouped_def)
  show "\<forall>i < length gs. \<forall>j < length gs. dt_eq (fst (gs ! i)) (fst (gs ! j)) \<longrightarrow> i = j"
    using grouped_same_key[OF g] by blast
  show "\<forall>e \<in> set entries. \<exists>!i. i < length gs \<and> has_midpoint (fst (gs ! i)) e"
  proof
    fix e assume "e \<in> set entries"
    with g obtain k xs where "(k, xs) \<in> set gs" "has_midpoint k e"
      by (auto simp: grouped_def)
    then obtain i where i: "i < length gs" "has_midpoint (fst (gs ! i)) e"
      by (metis fst_conv in_set_conv_nth)
    show "\<exists>!i. i < length gs \<and> has_midpoint (fst (gs ! i)) e"
    proof (rule ex1I[of _ i])
      show "i < length gs \<and> has_midpoint (fst (gs ! i)) e" using i by simp
    next
      fix j assume "j < length gs \<and> has_midpoint (fst (gs ! j)) e"
      with i grouped_same_key[OF g, of j i] has_midpoint_same[of "fst (gs ! j)" e "fst (gs ! i)"]
      show "j = i" by blast
    qed
  qed
next
  assume "has_midpoint k e1 \<and> average_datetime (start_date e2) (end_date e2) = Inr m2 \<and>
      \<not> dt_eq k m2"
  then show "\<not> has_midpoint k e2" by (simp add: has_midpoint_def)
next
  assume "dt_sub m1 m2 = Inr d \<and> d \<noteq> 0"
  then show "\<not> dt_eq m1 m2" using dt_sub_nonzero_neq by blast
next
  show "(\<exists>gs'. group_entries_by_date entries = Inr gs') \<longleftrightarrow>
      (\<forall>e \<in> set entries. \<exists>m. average_datetime (start_date e) (end_date e) = Inr m)"
    unfolding group_entries_by_date_def by (rule group_loop_returns_iff)
next
  assume "\<forall>e \<in> set entries. tzinfo (start_date e) = tzinfo (end_date e) \<and>
        valid_datetime (start_date e) \<and> valid_datetime (end_date e)"
  then have "\<forall>e \<in> set entries. \<exists>m. average_datetime (start_date e) (end_date e) = Inr m"
    using average_datetime_ok by blast
  then show "\<exists>gs'. group_entries_by_date entries = Inr gs'"
    unfolding group_entries_by_date_def by (simp only: group_loop_returns_iff)
qed

lemma three_passes_groups:
  "group_entries_by_date three_passes =
     Inr [(naive_at 10, [pass_entry (naive_at 9) (naive_at 11) 5,
                         pass_entry (naive_at 8) (naive_at 12) 2]),
          (naive_at 40, [pass_entry (naive_at 39) (naive_at 41) 9])]"
  by (simp add: code_defs example_defs)


theorem group_entries_by_date_partition_witness:
  "group_entries_by_date three_passes =
     Inr [(naive_at 10, [pass_entry (naive_at 9) (naive_at 11) 5,
                         pass_entry (naive_at 8) (naive_at 12) 2]),
          (naive_at 40, [pass_entry (naive_at 39) (naive_at 41) 9])] \<and>
   filter (has_midpoint (naive_at 10)) three_passes =
     [pass_entry (naive_at 9) (naive_at 11) 5, pass_entry (naive_at 8) (naive_at 12) 2] \<and>
   filter (has_midpoint (naive_at 40)) three_passes =
     [pass_entry (naive_at 39) (naive_at 41) 9] \<and>
   dt_sub (naive_at 10) (naive_at 40) = Inr (- 108000000000) \<and>
   \<not> dt_eq (naive_at 10) (naive_at 40) \<and>
   list_all (\<lambda>e. tzinfo (start_date e) = tzinfo (end_date e) \<and>
                 valid_datetime (start_date e) \<and> valid_datetime (end_date e)) three_passes"
  using group_entries_by_date_partition[of three_passes
      "[(naive_at 10, [pass_entry (naive_at 9) (naive_at 11) 5,
                       pass_entry (naive_at 8) (naive_at 12) 2]),
        (naive_at 40, [pass_entry (naive_at 39) (naive_at 41) 9])]"
      "naive_at 10" "pass_entry (naive_at 9) (naive_at 11) 5"
      "pass_entry (naive_at 39) (naive_at 41) 9" "naive_at 40"
      "naive_at 10" "- 108000000000"]
    three_passes_groups
  by (simp add: dt_sub_def dt_eq_def valid_datetime_def max_wall_us_def example_defs)

text \<open>
  Claim C4, as stated for every list of entries, does not hold: on an entry with a
  naive start and an aware end the subtraction of line 10 raises TypeError, and on an
  entry from 9999-12-31 23:00 at UTC+14 to 9999-12-31 23:00 at UTC-14 the addition of
  line 11 raises OverflowError; no grouping is returned.
\<close>

theorem group_entries_by_date_partition_counterexample:
  "group_entries_by_date mixed_pass = Inl TypeError \<and>
   valid_datetime (start_date (hd late_pass)) \<and> valid_datetime (end_date (hd late_pass)) \<and>
   dt_sub (end_date (hd late_pass)) (start_date (hd late_pass)) = Inr 100800000000 \<and>
   group_entries_by_date late_pass = Inl OverflowError"
  by (simp add: code_defs example_defs valid_datetime_def)

subsection \<open>The selector\<close>

text \<open>
  Claim C1. When \<open>get_best_overpass\<close> returns, it returns the entry list of a group of
  the grouping whose temporal value is greater than 0, whose summed overlap values reach
  \<open>min_overlap_pct\<close>, whose temporal value is strictly greater than that of every
  qualifying group before it in the order of iteration and at least that of every
  qualifying group after it: the first group of maximal temporal value among those
  that pass both filters. The overlap only decides whether a group qualifies. And it
  does return when the scorers cannot raise (\<open>max_diff_hours\<close> and the area of the
  AOI are not zero, the grouping succeeds) and some group qualifies.
\<close>

theorem get_best_overpass_first_maximum:
  "(get_best_overpass area isect entries aoi target mdh mop = Inr r \<longrightarrow>
      (\<exists>gs pre k es post v.
          group_entries_by_date entries = Inr gs \<and> gs = pre @ (k, es) # post \<and>
          r = Some es \<and>
          value_date k target mdh = Inr v \<and> 0 < v \<and>
          (\<exists>vs. overlap_values area isect es aoi = Inr vs \<and> mop \<le> sum_list vs) \<and>
          (\<forall>g \<in> set pre. \<forall>w. qualifies area isect aoi target mdh mop g w \<longrightarrow> w < v) \<and>
          (\<forall>g \<in> set post. \<forall>w. qualifies area isect aoi target mdh mop g w \<longrightarrow> w \<le> v))) \<and>
   (mdh \<noteq> 0 \<and> area aoi \<noteq> 0 \<and> group_entries_by_date entries = Inr gs' \<and>
      g \<in> set gs' \<and> qualifies area isect aoi target mdh mop g w \<longrightarrow>
      (\<exists>es. get_best_overpass area isect entries aoi target mdh mop = Inr (Some es)))"
proof (intro conjI impI)
  assume "get_best_overpass area isect entries aoi target mdh mop = Inr r"
  from get_best_overpass_returns[OF this] obtain gs pre k es post v where
    w: "group_entries_by_date entries = Inr gs" "gs = pre @ (k, es) # post" "r = Some es"
      "group_outcome area isect aoi target mdh mop (k, es) = Candidate v"
      "\<forall>g \<in> set pre. \<forall>w.
         group_outcome area isect aoi target mdh mop g = Candidate w \<longrightarrow> w < v"
      "\<forall>g \<in> set post. \<forall>w.
         group_outcome area isect aoi target mdh mop g = Candidate w \<longrightarrow> w \<le> v"
    by blast
  from w(4) have q: "qualifies area isect aoi target mdh mop (k, es) v"
    by (simp add: qualifies_outcome)
  then have "value_date k target mdh = Inr v"
    "\<exists>vs. overlap_values area isect es aoi = Inr vs \<and> mop \<le> sum_list vs"
    by (auto simp: qualifies_def split: sum.splits)
  moreover from candidate_pos[OF w(4)] have "0 < v" .
  ultimately show "\<exists>gs pre k es post v.
          group_entries_by_date entries = Inr gs \<and> gs = pre @ (k, es) # post \<and>
          r = Some es \<and>
          value_date k target mdh = Inr v \<and> 0 < v \<and>
          (\<exists>vs. overlap_values area isect es aoi = Inr vs \<and> mop \<le> sum_list vs) \<and>
          (\<forall>g \<in> set pre. \<forall>w. qualifies area isect aoi target mdh mop g w \<longrightarrow> w < v) \<and>
          (\<forall>g \<in> set post. \<forall>w. qualifies area isect aoi target mdh mop g w \<longrightarrow> w \<le> v)"
    using w(1,2,3,5,6) unfolding qualifies_outcome by blast
next
  assume a: "mdh \<noteq> 0 \<and> area aoi \<noteq> 0 \<and> group_entries_by_date entries = Inr gs' \<and>
      g \<in> set gs' \<and> qualifies area isect aoi target mdh mop g w"
  then have "\<exists>g \<in> set gs'. \<exists>w. group_outcome area isect aoi target mdh mop g = Candidate w"
    unfolding qualifies_outcome by blast
  with get_best_overpass_scan(1)[of mdh area aoi entries gs' isect target mop] a
  show "\<exists>es. get_best_overpass area isect entries aoi target mdh mop = Inr (Some es)"
    by blast
qed

lemma ranked_passes_groups:
  "group_entries_by_date ranked_passes =
     Inr [(naive_at 1, [pass_entry (naive_at 0) (naive_at 2) 1]),
          (naive_at 10, [pass_entry (naive_at 9) (naive_at 11) 5]),
          (naive_at 40, [pass_entry (naive_at 39) (naive_at 41) 9]),
          (naive_at (-10), [pass_entry (naive_at (-11)) (naive_at (-9)) 6])]"
  by (simp add: code_defs example_defs)

lemma ranked_passes_best:
  "get_best_overpass box_area box_intersection ranked_passes example_aoi (naive_at 0) 48 (3 / 10)
     = Inr (Some [pass_entry (naive_at 9) (naive_at 11) 5])"
  by (simp add: code_defs example_defs)

lemma ranked_passes_values:
  "\<not> qualifies box_area box_intersection example_aoi (naive_at 0) 48 (3 / 10)
       (naive_at 1, [pass_entry (naive_at 0) (naive_at 2) 1]) (47 / 48)"
  "qualifies box_area box_intersection example_aoi (naive_at 0) 48 (3 / 10)
     (naive_at 10, [pass_entry (naive_at 9) (naive_at 11) 5]) (19 / 24)"
  "qualifies box_area box_intersection example_aoi (naive_at 0) 48 (3 / 10)
     (naive_at 40, [pass_entry (naive_at 39) (naive_at 41) 9]) (1 / 6)"
  "qualifies box_area box_intersection example_aoi (naive_at 0) 48 (3 / 10)
     (naive_at (-10), [pass_entry (naive_at (-11)) (naive_at (-9)) 6]) (19 / 24)"
  by (simp_all add: qualifies_def code_defs example_defs)


theorem get_best_overpass_first_maximum_witness:
  "get_best_overpass box_area box_intersection ranked_passes example_aoi (naive_at 0) 48 (3 / 10)
     = Inr (Some [pass_entry (naive_at 9) (naive_at 11) 5]) \<and>
   (\<exists>gs pre k es post v.
       group_entries_by_date ranked_passes = Inr gs \<and> gs = pre @ (k, es) # post \<and>
       Some [pass_entry (naive_at 9) (naive_at 11) 5] = Some es \<and>
       value_date k (naive_at 0) 48 = Inr v \<and> 0 < v \<and>
       (\<exists>vs. overlap_values box_area box_intersection es example_aoi = Inr vs \<and>
             3 / 10 \<le> sum_list vs) \<and>
       (\<forall>g \<in> set pre. \<forall>w.
          qualifies box_area box_intersection example_aoi (naive_at 0) 48 (3 / 10) g w
            \<longrightarrow> w < v) \<and>
       (\<forall>g \<in> set post. \<forall>w.
          qualifies box_area box_intersection example_aoi (naive_at 0) 48 (3 / 10) g w
            \<longrightarrow> w \<le> v)) \<and>
   (48::real) \<noteq> 0 \<and> box_area example_aoi \<noteq> 0 \<and>
   qualifies box_area box_intersection example_aoi (naive_at 0) 48 (3 / 10)
     (naive_at (-10), [pass_entry (naive_at (-11)) (naive_at (-9)) 6]) (19 / 24) \<and>
   qualifies box_area box_intersection example_aoi (naive_at 0) 48 (3 / 10)
     (naive_at 10, [pass_entry (naive_at 9) (naive_at 11) 5]) (19 / 24)"
proof -
  have a: "box_area example_aoi \<noteq> 0" by (simp add: example_defs)
  from get_best_overpass_first_maximum[of box_area box_intersection ranked_passes example_aoi
      "naive_at 0" 48 "3 / 10" "Some [pass_entry (naive_at 9) (naive_at 11) 5]"]
    ranked_passes_best ranked_passes_values(2,4) a
  show ?thesis by simp
qed

text \<open>
  Claim C1, as stated for every non-empty list, does not hold: on a non-empty list with
  a single group 60 hours from the target date (cutoff 48 hours) the selector returns
  no group and raises ValueError.
\<close>

theorem get_best_overpass_first_maximum_counterexample:
  "far_pass \<noteq> [] \<and>
   group_entries_by_date far_pass = Inr [(naive_at 60, far_pass)] \<and>
   value_date (naive_at 60) (naive_at 0) 48 = Inr 0 \<and>
   get_best_overpass box_area box_intersection far_pass example_aoi (naive_at 0) 48 (3 / 10)
     = Inl ValueError"
  by (simp add: code_defs example_defs)

text \<open>
  Claim C2. \<open>get_best_overpass\<close> raises the error "no reasonably close overpass"
  (ValueError) if and only if the grouping succeeds and every group is skipped by the
  loop, which means that the filters of the group are evaluated without an exception and
  the group does not pass both of them. On the empty list it raises that error, and
  there is no group to evaluate. Whenever it returns, the result is the entry list of
  one of the groups.
\<close>

theorem get_best_overpass_no_overpass_iff:
  "get_best_overpass area isect [] aoi target mdh mop = Inl ValueError \<and>
   group_entries_by_date ([] :: 'g entry list) = Inr [] \<and>
   ((get_best_overpass area isect entries aoi target mdh mop = Inl ValueError) \<longleftrightarrow>
      (\<exists>gs. group_entries_by_date entries = Inr gs \<and>
            (\<forall>g \<in> set gs. skipped area isect aoi target mdh mop g))) \<and>
   (skipped area isect aoi target mdh mop g \<longleftrightarrow>
      (\<forall>w. \<not> qualifies area isect aoi target mdh mop g w) \<and>
      (\<forall>err. group_outcome area isect aoi target mdh mop g \<noteq> Raises err)) \<and>
   (get_best_overpass area isect entries aoi target mdh mop = Inr r \<longrightarrow>
      (\<exists>gs k es. group_entries_by_date entries = Inr gs \<and> (k, es) \<in> set gs \<and>
                 r = Some es))"
proof (intro conjI impI)
  show "get_best_overpass area isect [] aoi target mdh mop = Inl ValueError"
    by (simp add: get_best_overpass_def group_entries_by_date_def)
  show "group_entries_by_date ([] :: 'g entry list) = Inr []"
    by (simp add: group_entries_by_date_def)
  show "(get_best_overpass area isect entries aoi target mdh mop = Inl ValueError) \<longleftrightarrow>
      (\<exists>gs. group_entries_by_date entries = Inr gs \<and>
            (\<forall>g \<in> set gs. skipped area isect aoi target mdh mop g))"
    unfolding skipped_outcome by (rule get_best_overpass_ValueError_iff)
  show "skipped area isect aoi target mdh mop g \<longleftrightarrow>
      (\<forall>w. \<not> qualifies area isect aoi target mdh mop g w) \<and>
      (\<forall>err. group_outcome area isect aoi target mdh mop g \<noteq> Raises err)"
    by (rule skipped_iff_no_pass_no_raise)
next
  assume "get_best_overpass area isect entries aoi target mdh mop = Inr r"
  from get_best_overpass_returns[OF this]
  show "\<exists>gs k es. group_entries_by_date entries = Inr gs \<and> (k, es) \<in> set gs \<and> r = Some es"
    by auto
qed

lemma thin_pass_groups:
  "group_entries_by_date thin_pass = Inr [(naive_at 10, thin_pass)]"
  by (simp add: code_defs example_defs)

lemma thin_pass_skipped:
  "skipped box_area box_intersection example_aoi (naive_at 0) 48 (3 / 10)
     (naive_at 10, thin_pass)"
  by (simp add: skipped_def code_defs example_defs)

lemma far_pass_groups:
  "group_entries_by_date far_pass = Inr [(naive_at 60, far_pass)]"
  by (simp add: code_defs example_defs)

lemma far_pass_skipped:
  "skipped box_area box_intersection example_aoi (naive_at 0) 48 (3 / 10)
     (naive_at 60, far_pass)"
  "skipped box_area box_intersection example_aoi (naive_at 0) 0 (3 / 10)
     (naive_at 60, far_pass)"
  "skipped box_area box_intersection (strip_box 0) (naive_at 0) 48 (3 / 10)
     (naive_at 60, far_pass)"
  by (simp_all add: skipped_def code_defs example_defs)

lemma exact_pass_best:
  "get_best_overpass box_area box_intersection exact_pass example_aoi (naive_at 0) 48 (3 / 10)
     = Inr (Some exact_pass)"
  by (simp add: code_defs example_defs)

theorem get_best_overpass_no_overpass_iff_witness:
  "group_entries_by_date thin_pass = Inr [(naive_at 10, thin_pass)] \<and>
   skipped box_area box_intersection example_aoi (naive_at 0) 48 (3 / 10)
     (naive_at 10, thin_pass) \<and>
   get_best_overpass box_area box_intersection thin_pass example_aoi (naive_at 0) 48 (3 / 10)
     = Inl ValueError \<and>
   group_entries_by_date far_pass = Inr [(naive_at 60, far_pass)] \<and>
   get_best_overpass box_area box_intersection far_pass example_aoi (naive_at 0) 48 (3 / 10)
     = Inl ValueError \<and>
   get_best_overpass box_area box_intersection far_pass example_aoi (naive_at 0) 0 (3 / 10)
     = Inl ValueError \<and>
   box_area (strip_box 0) = 0 \<and>
   get_best_overpass box_area box_intersection far_pass (strip_box 0) (naive_at 0) 48 (3 / 10)
     = Inl ValueError \<and>
   get_best_overpass box_area box_intersection exact_pass example_aoi (naive_at 0) 48 (3 / 10)
     = Inr (Some exact_pass) \<and>
   (\<exists>gs k. group_entries_by_date exact_pass = Inr gs \<and> (k, exact_pass) \<in> set gs)"
proof -
  have raises: "get_best_overpass box_area box_intersection es aoi (naive_at 0) mdh (3 / 10)
      = Inl ValueError"
    if "group_entries_by_date es = Inr [(k, es)]"
      and "skipped box_area box_intersection aoi (naive_at 0) mdh (3 / 10) (k, es)"
    for es :: "box entry list" and aoi mdh k
  proof -
    from that have "\<exists>gs. group_entries_by_date es = Inr gs \<and>
        (\<forall>g \<in> set gs. skipped box_area box_intersection aoi (naive_at 0) mdh (3 / 10) g)"
      by simp
    with get_best_overpass_no_overpass_iff[where area = box_area and isect = box_intersection
        and aoi = aoi and target = "naive_at 0" and mdh = mdh and mop = "3 / 10"
        and entries = es and g = "(k, es)" and r = "Some es"]
    show ?thesis by blast
  qed
  have exact: "\<exists>gs k. group_entries_by_date exact_pass = Inr gs \<and> (k, exact_pass) \<in> set gs"
    using get_best_overpass_no_overpass_iff[where area = box_area and isect = box_intersection
        and aoi = example_aoi and target = "naive_at 0" and mdh = 48 and mop = "3 / 10"
        and entries = exact_pass and g = "(naive_at 0, exact_pass)"
        and r = "Some exact_pass"]
      exact_pass_best by auto
  have z: "box_area (strip_box 0) = 0" by (simp add: example_defs)
  from raises[OF thin_pass_groups thin_pass_skipped]
    raises[OF far_pass_groups far_pass_skipped(1)]
    raises[OF far_pass_groups far_pass_skipped(2)]
    raises[OF far_pass_groups far_pass_skipped(3)]
    exact z thin_pass_groups thin_pass_skipped far_pass_groups exact_pass_best
  show ?thesis by simp
qed

text \<open>
  Claim C2, as an equivalence with "no group passes both filters", does not hold: with
  \<open>max_diff_hours\<close> equal to 0 and a group at the target date, or with an AOI of area
  zero and a group at the target date, a scorer raises before the group can pass a
  filter, and the exception is ZeroDivisionError, not ValueError.
\<close>

theorem get_best_overpass_no_overpass_iff_counterexample:
  "group_entries_by_date exact_pass = Inr [(naive_at 0, exact_pass)] \<and>
   value_date (naive_at 0) (naive_at 0) 0 = Inl ZeroDivisionError \<and>
   get_best_overpass box_area box_intersection exact_pass example_aoi (naive_at 0) 0 (3 / 10)
     = Inl ZeroDivisionError \<and>
   box_area (strip_box 0) = 0 \<and>
   overlap_values box_area box_intersection exact_pass (strip_box 0) = Inl ZeroDivisionError \<and>
   get_best_overpass box_area box_intersection exact_pass (strip_box 0) (naive_at 0) 48 (3 / 10)
     = Inl ZeroDivisionError"
  by (simp add: code_defs example_defs)

text \<open>
  Claim C5. For an AOI whose area is not zero, \<open>_value_overlap\<close> returns the area of the
  intersection of AOI and footprint divided by the area of the AOI. The selector's loop
  compares the sum over the entries of a group of these quotients with
  \<open>min_overlap_pct\<close>: below it the group is skipped, otherwise the group competes with
  its temporal value; a returned group has such a sum of at least \<open>min_overlap_pct\<close>.
  The footprints are not united: two equal footprints count twice.
\<close>

theorem overlap_is_summed_per_entry:
  "(area aoi \<noteq> 0 \<longrightarrow>
      value_overlap area isect fp aoi = Inr (area (isect aoi fp) / area aoi)) \<and>
   (area aoi \<noteq> 0 \<and> value_date k target mdh = Inr dv \<and> dv \<noteq> 0 \<longrightarrow>
      scan_groups area isect aoi target mdh mop ((k, es) # gs) (bv, be) =
        (if (\<Sum>e\<leftarrow>es. area (isect aoi (footprint e)) / area aoi) < mop
         then scan_groups area isect aoi target mdh mop gs (bv, be)
         else if dv > bv then scan_groups area isect aoi target mdh mop gs (dv, Some es)
         else scan_groups area isect aoi target mdh mop gs (bv, be))) \<and>
   (area aoi \<noteq> 0 \<and> get_best_overpass area isect entries aoi target mdh mop = Inr r \<longrightarrow>
      (\<exists>gs' k' es'. group_entries_by_date entries = Inr gs' \<and> (k', es') \<in> set gs' \<and>
          r = Some es' \<and>
          mop \<le> (\<Sum>e\<leftarrow>es'. area (isect aoi (footprint e)) / area aoi)))"
proof (intro conjI impI)
  assume "area aoi \<noteq> 0"
  then show "value_overlap area isect fp aoi = Inr (area (isect aoi fp) / area aoi)"
    by (simp add: value_overlap_def)
next
  assume "area aoi \<noteq> 0 \<and> value_date k target mdh = Inr dv \<and> dv \<noteq> 0"
  then show "scan_groups area isect aoi target mdh mop ((k, es) # gs) (bv, be) =
        (if (\<Sum>e\<leftarrow>es. area (isect aoi (footprint e)) / area aoi) < mop
         then scan_groups area isect aoi target mdh mop gs (bv, be)
         else if dv > bv then scan_groups area isect aoi target mdh mop gs (dv, Some es)
         else scan_groups area isect aoi target mdh mop gs (bv, be))"
    using overlap_values_ok[of area aoi isect es] by simp
next
  assume a: "area aoi \<noteq> 0 \<and> get_best_overpass area isect entries aoi target mdh mop = Inr r"
  from get_best_overpass_returns[of area isect entries aoi target mdh mop r] a
  obtain gs pre k es post v where
    w: "group_entries_by_date entries = Inr gs" "gs = pre @ (k, es) # post" "r = Some es"
      "group_outcome area isect aoi target mdh mop (k, es) = Candidate v"
    by blast
  from w(4) have "\<exists>vs. overlap_values area isect es aoi = Inr vs \<and> mop \<le> sum_list vs"
    by (auto simp: group_outcome_def split: sum.splits if_splits)
  with a overlap_values_ok[of area aoi isect es]
  have "mop \<le> (\<Sum>e\<leftarrow>es. area (isect aoi (footprint e)) / area aoi)" by auto
  with w(1,2,3)
  show "\<exists>gs' k' es'. group_entries_by_date entries = Inr gs' \<and> (k', es') \<in> set gs' \<and>
          r = Some es' \<and>
          mop \<le> (\<Sum>e\<leftarrow>es'. area (isect aoi (footprint e)) / area aoi)"
    by auto
qed

lemma twin_passes_best:
  "get_best_overpass box_area box_intersection twin_passes example_aoi (naive_at 0) 48 (3 / 10)
     = Inr (Some twin_passes)"
  by (simp add: code_defs example_defs)

lemma twin_passes_date: "value_date (naive_at 10) (naive_at 0) 48 = Inr (19 / 24)"
  by (simp add: code_defs example_defs)

lemma twin_passes_sum:
  "(\<Sum>e\<leftarrow>twin_passes. box_area (box_intersection example_aoi (footprint e))
                          / box_area example_aoi) = 2 / 5"
  by (simp add: example_defs)

theorem overlap_is_summed_per_entry_witness:
  "box_area example_aoi \<noteq> 0 \<and>
   value_overlap box_area box_intersection (strip_box 2) example_aoi
     = Inr (box_area (box_intersection example_aoi (strip_box 2)) / box_area example_aoi) \<and>
   box_area (box_intersection example_aoi (strip_box 2)) / box_area example_aoi = 1 / 5 \<and>
   map footprint twin_passes = [strip_box 2, strip_box 2] \<and>
   (\<Sum>e\<leftarrow>twin_passes. box_area (box_intersection example_aoi (footprint e))
                          / box_area example_aoi) = 2 / 5 \<and>
   scan_groups box_area box_intersection example_aoi (naive_at 0) 48 (3 / 10)
     [(naive_at 10, twin_passes)] (0, None) = Inr (19 / 24, Some twin_passes) \<and>
   get_best_overpass box_area box_intersection twin_passes example_aoi (naive_at 0) 48 (3 / 10)
     = Inr (Some twin_passes)"
proof -
  have a: "box_area example_aoi \<noteq> 0" by (simp add: example_defs)
  note T = overlap_is_summed_per_entry[where area = box_area and isect = box_intersection
      and aoi = example_aoi and fp = "strip_box 2" and k = "naive_at 10"
      and target = "naive_at 0" and mdh = 48 and dv = "19 / 24" and mop = "3 / 10"
      and es = twin_passes and gs = "[]" and bv = 0 and be = None
      and entries = twin_passes and r = "Some twin_passes"]
  from T a have 1: "value_overlap box_area box_intersection (strip_box 2) example_aoi
     = Inr (box_area (box_intersection example_aoi (strip_box 2)) / box_area example_aoi)"
    by blast
  from T a twin_passes_date
  have "scan_groups box_area box_intersection example_aoi (naive_at 0) 48 (3 / 10)
     [(naive_at 10, twin_passes)] (0, None) =
     (if (\<Sum>e\<leftarrow>twin_passes. box_area (box_intersection example_aoi (footprint e))
                          / box_area example_aoi) < 3 / 10
      then scan_groups box_area box_intersection example_aoi (naive_at 0) 48 (3 / 10) [] (0, None)
      else if 19 / 24 > (0::real)
        then scan_groups box_area box_intersection example_aoi (naive_at 0) 48 (3 / 10) []
               (19 / 24, Some twin_passes)
        else scan_groups box_area box_intersection example_aoi (naive_at 0) 48 (3 / 10) []
               (0, None))"
    by simp
  then have 2: "scan_groups box_area box_intersection example_aoi (naive_at 0) 48 (3 / 10)
     [(naive_at 10, twin_passes)] (0, None) = Inr (19 / 24, Some twin_passes)"
    by (simp add: twin_passes_sum)
  have 3: "box_area (box_intersection example_aoi (strip_box 2)) / box_area example_aoi = 1 / 5"
    by (simp add: example_defs)
  have 4: "map footprint twin_passes = [strip_box 2, strip_box 2]"
    by (simp add: twin_passes_def pass_entry_def)
  from a 1 2 3 4 twin_passes_sum twin_passes_best show ?thesis by blast
qed

text \<open>
  Claim C9. Every group of the grouping has at least one entry, and a result of
  \<open>get_best_overpass\<close> is a list (not None) with at least one entry.
\<close>

theorem get_best_overpass_nonempty:
  "(group_entries_by_date entries = Inr gs \<longrightarrow> (\<forall>(k, es) \<in> set gs. es \<noteq> [])) \<and>
   (get_best_overpass area isect entries aoi target mdh mop = Inr r \<longrightarrow>
      (\<exists>es. r = Some es \<and> es \<noteq> []))"
proof (intro conjI impI)
  assume "group_entries_by_date entries = Inr gs"
  from group_entries_grouped[OF this] show "\<forall>(k, es) \<in> set gs. es \<noteq> []"
    by (auto simp: grouped_def)
next
  assume "get_best_overpass area isect entries aoi target mdh mop = Inr r"
  from get_best_overpass_returns[OF this] obtain gs pre k es post where
    w: "group_entries_by_date entries = Inr gs" "gs = pre @ (k, es) # post" "r = Some es"
    by blast
  from group_entries_grouped[OF w(1)] w(2) have "es \<noteq> []"
    by (auto simp: grouped_def)
  with w(3) show "\<exists>es. r = Some es \<and> es \<noteq> []" by simp
qed

lemma exact_pass_groups:
  "group_entries_by_date exact_pass = Inr [(naive_at 0, exact_pass)]"
  by (simp add: code_defs example_defs)

theorem get_best_overpass_nonempty_witness:
  "group_entries_by_date exact_pass = Inr [(naive_at 0, exact_pass)] \<and>
   get_best_overpass box_area box_intersection exact_pass example_aoi (naive_at 0) 48 (3 / 10)
     = Inr (Some exact_pass) \<and>
   exact_pass \<noteq> []"
  using get_best_overpass_nonempty[where entries = exact_pass
      and gs = "[(naive_at 0, exact_pass)]" and area = box_area and isect = box_intersection
      and aoi = example_aoi and target = "naive_at 0" and mdh = 48 and mop = "3 / 10"
      and r = "Some exact_pass"]
    exact_pass_groups exact_pass_best
  by simp

text \<open>
  Claim C10. With \<open>max_diff_hours\<close> equal to 0, \<open>_value_date\<close> raises ZeroDivisionError
  for two dates at difference zero, and \<open>get_best_overpass\<close> raises ZeroDivisionError,
  not the error "no reasonably close overpass", as soon as the key of some group is at
  difference zero from the target date.
\<close>

theorem zero_cutoff_divides_by_zero:
  "(diff_hours_of overpass_date target_date = 0 \<longrightarrow>
      value_date overpass_date target_date 0 = Inl ZeroDivisionError) \<and>
   (group_entries_by_date entries = Inr gs \<and> (k, es) \<in> set gs \<and>
      diff_hours_of k target = 0 \<longrightarrow>
      get_best_overpass area isect entries aoi target 0 mop = Inl ZeroDivisionError)"
proof (intro conjI impI)
  assume "diff_hours_of overpass_date target_date = 0"
  then show "value_date overpass_date target_date 0 = Inl ZeroDivisionError"
    by (simp add: value_date_zero_cutoff)
next
  assume a: "group_entries_by_date entries = Inr gs \<and> (k, es) \<in> set gs \<and>
      diff_hours_of k target = 0"
  then have "\<exists>g \<in> set gs. diff_hours_of (fst g) target = 0" by force
  then have "scan_groups area isect aoi target 0 mop gs (0, None) = Inl ZeroDivisionError"
    by (simp add: scan_groups_zero_cutoff)
  with a show "get_best_overpass area isect entries aoi target 0 mop = Inl ZeroDivisionError"
    by (simp add: get_best_overpass_def)
qed

theorem zero_cutoff_divides_by_zero_witness:
  "diff_hours_of (naive_at 0) (naive_at 0) = 0 \<and>
   value_date (naive_at 0) (naive_at 0) 0 = Inl ZeroDivisionError \<and>
   group_entries_by_date exact_pass = Inr [(naive_at 0, exact_pass)] \<and>
   get_best_overpass box_area box_intersection exact_pass example_aoi (naive_at 0) 0 (3 / 10)
     = Inl ZeroDivisionError"
proof -
  have d: "diff_hours_of (naive_at 0) (naive_at 0) = 0"
    by (simp add: diff_hours_of_def ddiff_of_def dt_sub_def total_seconds_def naive_at_def)
  note T = zero_cutoff_divides_by_zero[where overpass_date = "naive_at 0"
      and target_date = "naive_at 0" and entries = exact_pass
      and gs = "[(naive_at 0, exact_pass)]" and k = "naive_at 0" and es = exact_pass
      and target = "naive_at 0" and area = box_area and isect = box_intersection
      and aoi = example_aoi and mop = "3 / 10"]
  from T d exact_pass_groups show ?thesis by simp
qed

end
